theory Spec2Isabelle
  imports Main "HOL-Library.Word"
begin

unbundle bit_operations_syntax

section \<open>PCA9641 bus master selector: arbitration, select and release\<close>

text \<open>
  A shallow embedding of \<^verbatim>\<open>i2c-mux-pca9641.c\<close>. The driver's own functions are
  translated one by one and keep their names. What the driver calls but does not define
  (the SMBus transfer primitive, the jiffies clock, \<^verbatim>\<open>udelay\<close>, \<^verbatim>\<open>msleep\<close>,
  the constant \<^verbatim>\<open>HZ\<close>) is taken as a parameter, the record \<open>kernel\<close>, over an
  arbitrary type \<open>'w\<close> of states of the world outside the driver (chip registers, the
  other host, the clock).
\<close>

subsection \<open>Machine types\<close>

type_synonym u8 = "8 word"
type_synonym u32 = "32 word"
type_synonym ulong = "64 word"

text \<open>
  C \<^verbatim>\<open>int\<close> values (transfer results, register reads widened to \<^verbatim>\<open>int\<close>)
  are \<open>int\<close>: the driver only compares them and masks non-negative ones, it does no
  arithmetic on them. \<^verbatim>\<open>unsigned long\<close> is a 64-bit word, where the jiffies
  arithmetic wraps around.
\<close>

subsection \<open>Register map and bit masks\<close>

definition PCA9641_CONTR :: u8 where "PCA9641_CONTR = 0x01"
definition PCA9641_STATUS :: u8 where "PCA9641_STATUS = 0x02"
definition PCA9641_RT :: u8 where "PCA9641_RT = 0x03"
definition PCA9641_AUTO_INC :: u8 where "PCA9641_AUTO_INC = 0x80"

definition BIT :: "nat \<Rightarrow> int" where
  "BIT n = push_bit n 1"

definition PCA9641_CTL_LOCK_REQ :: int where "PCA9641_CTL_LOCK_REQ = BIT 0"
definition PCA9641_CTL_LOCK_GRANT :: int where "PCA9641_CTL_LOCK_GRANT = BIT 1"
definition PCA9641_CTL_BUS_CONNECT :: int where "PCA9641_CTL_BUS_CONNECT = BIT 2"
definition PCA9641_CTL_BUS_INIT :: int where "PCA9641_CTL_BUS_INIT = BIT 3"
definition PCA9641_CTL_SMBUS_SWRST :: int where "PCA9641_CTL_SMBUS_SWRST = BIT 4"
definition PCA9641_CTL_IDLE_TIMER_DIS :: int where "PCA9641_CTL_IDLE_TIMER_DIS = BIT 5"
definition PCA9641_CTL_SMBUS_DIS :: int where "PCA9641_CTL_SMBUS_DIS = BIT 6"
definition PCA9641_CTL_PRIORITY :: int where "PCA9641_CTL_PRIORITY = BIT 7"

definition CONNECT :: int where
  "CONNECT = (PCA9641_CTL_LOCK_REQ OR PCA9641_CTL_LOCK_GRANT OR PCA9641_CTL_BUS_CONNECT)"

definition connected :: "int \<Rightarrow> bool" where
  "connected x \<longleftrightarrow> (x AND CONNECT) = CONNECT"

definition requested :: "int \<Rightarrow> bool" where
  "requested x \<longleftrightarrow> (x AND CONNECT) = PCA9641_CTL_LOCK_REQ"

text \<open>Reserve time, in ms.\<close>

definition RESERVE_TIME :: u8 where "RESERVE_TIME = 20"

text \<open>Arbitration retry delays, in us.\<close>

definition SELECT_DELAY_SHORT :: ulong where "SELECT_DELAY_SHORT = 0"
definition SELECT_DELAY_LONG :: ulong where "SELECT_DELAY_LONG = 1000"

text \<open>The errno value of the kernel's generic \<^verbatim>\<open>errno.h\<close>.\<close>

definition ETIMEDOUT :: int where "ETIMEDOUT = 110"

subsection \<open>The kernel services the driver calls\<close>

datatype read_write = I2C_SMBUS_WRITE | I2C_SMBUS_READ

datatype xfer_size = I2C_SMBUS_BYTE_DATA | I2C_SMBUS_I2C_BLOCK_DATA

text \<open>
  \<open>smbus_xfer\<close> stands for \<^verbatim>\<open>__i2c_smbus_xfer\<close> on the client's adapter, address
  and flags: it takes the direction, the command byte, the size and the bytes of the
  data union the caller filled in (none for a read), and gives the C return value and
  the \<^verbatim>\<open>byte\<close> member of the union after the call. \<open>jiffies\<close> reads the clock.
  \<open>HZ\<close> is the number of jiffies in a second.
\<close>

record 'w kernel =
  HZ :: nat
  smbus_xfer :: "read_write \<Rightarrow> u8 \<Rightarrow> xfer_size \<Rightarrow> u8 list \<Rightarrow> 'w \<Rightarrow> (int \<times> u8) \<times> 'w"
  jiffies :: "'w \<Rightarrow> ulong"
  udelay :: "ulong \<Rightarrow> 'w \<Rightarrow> 'w"
  msleep :: "u32 \<Rightarrow> 'w \<Rightarrow> 'w"

text \<open>Arbitration timeout, in jiffies: 250 ms until acquisition failure.\<close>

definition ARB_TIMEOUT :: "'w kernel \<Rightarrow> nat" where
  "ARB_TIMEOUT K = HZ K div 4"

subsection \<open>Driver state\<close>

text \<open>
  Every call of a kernel service is recorded, in order, in \<open>trace\<close>: a ghost field, which
  the driver never reads, that makes "issues no write" and "exactly one read" statable.
\<close>

datatype event =
    Xfer read_write u8 xfer_size "u8 list"
  | Udelay ulong
  | Msleep u32

text \<open>
  \<open>select_timeout\<close> is the field of \<^verbatim>\<open>struct pca9641\<close> (the retry delay); the
  \<^verbatim>\<open>client\<close> pointer of the struct is fixed once at probe time and is part of the
  kernel parameter.
\<close>

record 'w state =
  world :: 'w
  select_timeout :: ulong
  trace :: "event list"

definition i2c_smbus_xfer ::
  "'w kernel \<Rightarrow> read_write \<Rightarrow> u8 \<Rightarrow> xfer_size \<Rightarrow> u8 list \<Rightarrow> 'w state \<Rightarrow> (int \<times> u8) \<times> 'w state" where
  "i2c_smbus_xfer K rw command sz bytes s =
     (case smbus_xfer K rw command sz bytes (world s) of
        (r, w') \<Rightarrow> (r, s\<lparr>world := w', trace := trace s @ [Xfer rw command sz bytes]\<rparr>))"

definition do_udelay :: "'w kernel \<Rightarrow> ulong \<Rightarrow> 'w state \<Rightarrow> 'w state" where
  "do_udelay K us s = s\<lparr>world := udelay K us (world s), trace := trace s @ [Udelay us]\<rparr>"

definition do_msleep :: "'w kernel \<Rightarrow> u32 \<Rightarrow> 'w state \<Rightarrow> 'w state" where
  "do_msleep K ms s = s\<lparr>world := msleep K ms (world s), trace := trace s @ [Msleep ms]\<rparr>"

subsection \<open>Register access\<close>

definition pca9641_reg_write :: "'w kernel \<Rightarrow> u8 \<Rightarrow> u8 \<Rightarrow> 'w state \<Rightarrow> int \<times> 'w state" where
  "pca9641_reg_write K command val s =
     (case i2c_smbus_xfer K I2C_SMBUS_WRITE command I2C_SMBUS_BYTE_DATA [val] s of
        ((ret, b), s') \<Rightarrow> (ret, s'))"

definition pca9641_reg_write_multi ::
  "'w kernel \<Rightarrow> u8 \<Rightarrow> u8 \<Rightarrow> u8 \<Rightarrow> 'w state \<Rightarrow> int \<times> 'w state" where
  "pca9641_reg_write_multi K command v1 v2 s =
     (case i2c_smbus_xfer K I2C_SMBUS_WRITE command I2C_SMBUS_I2C_BLOCK_DATA [2, v1, v2] s of
        ((ret, b), s') \<Rightarrow> (ret, s'))"

text \<open>\<^verbatim>\<open>return ret ?: data.byte;\<close>\<close>

definition pca9641_reg_read :: "'w kernel \<Rightarrow> u8 \<Rightarrow> 'w state \<Rightarrow> int \<times> 'w state" where
  "pca9641_reg_read K command s =
     (case i2c_smbus_xfer K I2C_SMBUS_READ command I2C_SMBUS_BYTE_DATA [] s of
        ((ret, b), s') \<Rightarrow> (if ret \<noteq> 0 then ret else uint b, s'))"

subsection \<open>Arbitration management\<close>

text \<open>Release bus. The result of the write is dropped: the function is \<^verbatim>\<open>void\<close>.\<close>

definition pca9641_release_bus :: "'w kernel \<Rightarrow> 'w state \<Rightarrow> 'w state" where
  "pca9641_release_bus K s = snd (pca9641_reg_write K PCA9641_CONTR 0x00 s)"

text \<open>Channel arbitration. Return values: \<open>< 0\<close> error, \<open>0\<close> bus not acquired, \<open>1\<close> bus acquired.\<close>

definition pca9641_arbitrate :: "'w kernel \<Rightarrow> 'w state \<Rightarrow> int \<times> 'w state" where
  "pca9641_arbitrate K s =
     (case pca9641_reg_read K PCA9641_CONTR s of
        (reg, s1) \<Rightarrow>
          if reg < 0 then (reg, s1)
          else if connected reg then (1, s1)
          else if requested reg then (0, s1\<lparr>select_timeout := SELECT_DELAY_LONG\<rparr>)
          else (case pca9641_reg_write_multi K (PCA9641_CONTR OR PCA9641_AUTO_INC)
                       (word_of_int (PCA9641_CTL_LOCK_REQ OR PCA9641_CTL_BUS_CONNECT
                                       OR PCA9641_CTL_IDLE_TIMER_DIS))
                       RESERVE_TIME s1 of
                  (wret, s2) \<Rightarrow> (0, s2\<lparr>select_timeout := SELECT_DELAY_SHORT\<rparr>)))"

subsection \<open>Select and release\<close>

text \<open>
  \<^verbatim>\<open>time_is_after_eq_jiffies(a)\<close> is \<^verbatim>\<open>time_after_eq(a, jiffies)\<close>, that is
  \<^verbatim>\<open>(long)(a - jiffies) >= 0\<close>.
\<close>

definition time_is_after_eq_jiffies :: "'w kernel \<Rightarrow> ulong \<Rightarrow> 'w state \<Rightarrow> bool" where
  "time_is_after_eq_jiffies K a s \<longleftrightarrow> 0 \<le> sint (a - jiffies K (world s))"

text \<open>The delay between two polls: the \<^verbatim>\<open>if\<close>/\<^verbatim>\<open>else\<close> of the loop body.\<close>

definition retry_delay :: "'w kernel \<Rightarrow> 'w state \<Rightarrow> 'w state" where
  "retry_delay K s =
     (if select_timeout s = SELECT_DELAY_SHORT then do_udelay K (select_timeout s) s
      else do_msleep K (ucast (select_timeout s div 1000)) s)"

text \<open>
  The \<^verbatim>\<open>do ... while\<close> loop of \<^verbatim>\<open>pca9641_select_chan\<close>. It ends only when the
  kernel's clock passes the deadline or a poll returns non-zero, so it is given fuel, one
  unit for each pass through the body: \<open>None\<close> says that the fuel ran out before the
  loop returned.
\<close>

fun select_loop :: "'w kernel \<Rightarrow> ulong \<Rightarrow> nat \<Rightarrow> 'w state \<Rightarrow> (int \<times> 'w state) option" where
  "select_loop K timeout 0 s = None"
| "select_loop K timeout (Suc n) s =
     (case pca9641_arbitrate K s of
        (ret, s1) \<Rightarrow>
          if ret \<noteq> 0 then Some (if ret < 0 then ret else 0, s1)
          else (let s2 = retry_delay K s1
                in if time_is_after_eq_jiffies K timeout s2 then select_loop K timeout n s2
                   else Some (- ETIMEDOUT, s2)))"

definition pca9641_select_chan ::
  "'w kernel \<Rightarrow> nat \<Rightarrow> u32 \<Rightarrow> 'w state \<Rightarrow> (int \<times> 'w state) option" where
  "pca9641_select_chan K fuel chan s =
     select_loop K (jiffies K (world s) + of_nat (ARB_TIMEOUT K)) fuel s"

definition pca9641_release_chan :: "'w kernel \<Rightarrow> u32 \<Rightarrow> 'w state \<Rightarrow> int \<times> 'w state" where
  "pca9641_release_chan K chan s = (0, pca9641_release_bus K s)"

subsection \<open>Vocabulary of the statements\<close>

text \<open>The three bus transactions the driver issues, with their bytes written out.\<close>

definition ev_read :: event where
  "ev_read = Xfer I2C_SMBUS_READ 0x01 I2C_SMBUS_BYTE_DATA []"

definition ev_request :: event where
  "ev_request = Xfer I2C_SMBUS_WRITE 0x81 I2C_SMBUS_I2C_BLOCK_DATA [2, 0x25, 20]"

definition ev_release :: event where
  "ev_release = Xfer I2C_SMBUS_WRITE 0x01 I2C_SMBUS_BYTE_DATA [0x00]"

text \<open>
  The state in which the loop of \<open>select_loop\<close> evaluates its condition after one pass
  through the body that did not return: a poll, then the delay.
\<close>

definition poll :: "'w kernel \<Rightarrow> 'w state \<Rightarrow> 'w state" where
  "poll K s = retry_delay K (snd (pca9641_arbitrate K s))"

text \<open>The transport answers every read of a register with success and a value that is
  not \<open>connected\<close>.\<close>

definition never_connected :: "'w kernel \<Rightarrow> bool" where
  "never_connected K \<longleftrightarrow>
     (\<forall>w. case smbus_xfer K I2C_SMBUS_READ PCA9641_CONTR I2C_SMBUS_BYTE_DATA [] w of
            ((ret, b), w') \<Rightarrow> ret = 0 \<and> \<not> connected (uint b))"

text \<open>
  A kernel whose time advances: \<open>clk\<close> reads the time of a world in ticks, \<open>jiffies\<close>
  counts the whole periods of \<open>per\<close> ticks, every transfer takes at least one tick and
  at most \<open>hi\<close>, and each of the two delays the driver asks for, \<^verbatim>\<open>udelay(0)\<close>
  and \<^verbatim>\<open>msleep(1)\<close>, takes at most \<open>hi\<close> ticks.
\<close>

definition ticking :: "'w kernel \<Rightarrow> ('w \<Rightarrow> nat) \<Rightarrow> nat \<Rightarrow> nat \<Rightarrow> bool" where
  "ticking K clk per hi \<longleftrightarrow>
     0 < per
     \<and> (\<forall>w. jiffies K w = of_nat (clk w div per))
     \<and> (\<forall>rw command sz bytes w.
           clk w < clk (snd (smbus_xfer K rw command sz bytes w))
           \<and> clk (snd (smbus_xfer K rw command sz bytes w)) \<le> clk w + hi)
     \<and> (\<forall>w. clk w \<le> clk (udelay K 0 w) \<and> clk (udelay K 0 w) \<le> clk w + hi)
     \<and> (\<forall>w. clk w \<le> clk (msleep K 1 w) \<and> clk (msleep K 1 w) \<le> clk w + hi)"

text \<open>What a caller of select can observe apart from the retry delay itself: the
  result, the world and the kernel calls made.\<close>

definition observable :: "int \<times> 'w state \<Rightarrow> int \<times> 'w \<times> event list" where
  "observable r = (fst r, world (snd r), trace (snd r))"

text \<open>The kernel calls of one pass through the loop body: one read, then no write or
  one, then no delay or one.\<close>

definition pass_shape :: "event list \<Rightarrow> bool" where
  "pass_shape p \<longleftrightarrow>
     p = [ev_read] \<or> p = [ev_read, Msleep 1] \<or> p = [ev_read, ev_request, Udelay 0]"

subsection \<open>Simulated kernels\<close>

text \<open>
  Two concrete kernels, on which the driver can be run. \<open>stub_kernel hz rd wr cost\<close>
  answers every read with \<open>rd\<close> and every write with \<open>wr\<close>; its world is the clock,
  which a transfer advances by \<open>cost\<close> jiffies, \<^verbatim>\<open>msleep\<close> by one jiffy for
  each millisecond and \<^verbatim>\<open>udelay\<close> not at all.
\<close>

definition stub_kernel :: "nat \<Rightarrow> int \<times> u8 \<Rightarrow> int \<Rightarrow> ulong \<Rightarrow> ulong kernel" where
  "stub_kernel hz rd wr cost =
     \<lparr>HZ = hz,
      smbus_xfer = (\<lambda>rw command sz bytes w.
         ((case rw of I2C_SMBUS_READ \<Rightarrow> rd | I2C_SMBUS_WRITE \<Rightarrow> (wr, 0)), w + cost)),
      jiffies = (\<lambda>w. w),
      udelay = (\<lambda>us w. w),
      msleep = (\<lambda>ms w. w + ucast ms)\<rparr>"

text \<open>
  \<open>regfile_kernel hz\<close> is a plain register file: a byte write stores the byte at the
  command address, a block write stores its two bytes at consecutive addresses from the
  command with the auto-increment bit cleared, a read returns what is stored; every
  transfer succeeds. Its clock stands still.
\<close>

definition regfile_kernel :: "nat \<Rightarrow> (u8 \<Rightarrow> u8) kernel" where
  "regfile_kernel hz =
     \<lparr>HZ = hz,
      smbus_xfer = (\<lambda>rw command sz bytes regs.
         case rw of
           I2C_SMBUS_READ \<Rightarrow> ((0, regs command), regs)
         | I2C_SMBUS_WRITE \<Rightarrow>
             (case bytes of
                [v] \<Rightarrow> ((0, v), regs(command := v))
              | [n, v1, v2] \<Rightarrow>
                  ((0, n), regs(command AND NOT PCA9641_AUTO_INC := v1,
                                (command AND NOT PCA9641_AUTO_INC) + 1 := v2))
              | _ \<Rightarrow> ((- 22, 0), regs))),
      jiffies = (\<lambda>regs. 0),
      udelay = (\<lambda>us regs. regs),
      msleep = (\<lambda>ms regs. regs)\<rparr>"

text \<open>
  \<open>tick_kernel hz per rd cost\<close> is the stub with a finer clock that does not wrap: its
  world is the time in ticks, \<open>per\<close> ticks to the jiffy; a transfer takes \<open>cost\<close> ticks,
  \<^verbatim>\<open>msleep\<close> one jiffy for each millisecond; every read is answered with \<open>rd\<close>
  and every write succeeds.
\<close>

definition tick_kernel :: "nat \<Rightarrow> nat \<Rightarrow> int \<times> u8 \<Rightarrow> nat \<Rightarrow> nat kernel" where
  "tick_kernel hz per rd cost =
     \<lparr>HZ = hz,
      smbus_xfer = (\<lambda>rw command sz bytes w.
         ((case rw of I2C_SMBUS_READ \<Rightarrow> rd | I2C_SMBUS_WRITE \<Rightarrow> (0, 0)), w + cost)),
      jiffies = (\<lambda>w. of_nat (w div per)),
      udelay = (\<lambda>us w. w),
      msleep = (\<lambda>ms w. w + unat ms * per)\<rparr>"

text \<open>The driver state after probe: the private data is allocated zeroed.\<close>

definition boot :: "'w \<Rightarrow> 'w state" where
  "boot w = \<lparr>world = w, select_timeout = 0, trace = []\<rparr>"

section \<open>Properties\<close>


subsection \<open>The bit tests\<close>

lemma CONNECT_eq: "CONNECT = 7"
  by (simp add: CONNECT_def PCA9641_CTL_LOCK_REQ_def PCA9641_CTL_LOCK_GRANT_def
      PCA9641_CTL_BUS_CONNECT_def BIT_def)

lemma LOCK_REQ_eq: "PCA9641_CTL_LOCK_REQ = 1"
  by (simp add: PCA9641_CTL_LOCK_REQ_def BIT_def)

lemma request_bits_eq:
  "(word_of_int (PCA9641_CTL_LOCK_REQ OR PCA9641_CTL_BUS_CONNECT OR PCA9641_CTL_IDLE_TIMER_DIS) :: u8) = 0x25"
  by (simp add: PCA9641_CTL_LOCK_REQ_def PCA9641_CTL_BUS_CONNECT_def
      PCA9641_CTL_IDLE_TIMER_DIS_def BIT_def)

lemma request_command_eq: "PCA9641_CONTR OR PCA9641_AUTO_INC = 0x81"
  by (simp add: PCA9641_CONTR_def PCA9641_AUTO_INC_def)

lemma less_3_cases: "(n::nat) < 3 \<longleftrightarrow> n = 0 \<or> n = 1 \<or> n = 2"
  by auto

lemma and_7_eq_7: "(v AND 7 = 7) \<longleftrightarrow> bit v 0 \<and> bit v 1 \<and> bit (v::u8) 2"
proof
  assume h: "v AND 7 = 7"
  have "bit (v AND 7) 0 = bit (7::u8) 0" "bit (v AND 7) 1 = bit (7::u8) 1"
    "bit (v AND 7) 2 = bit (7::u8) 2"
    by (simp_all only: h)
  then show "bit v 0 \<and> bit v 1 \<and> bit v 2"
    by (simp add: bit_and_iff bit_numeral_simps)
next
  assume h: "bit v 0 \<and> bit v 1 \<and> bit v 2"
  have "v AND mask 3 = mask 3"
    by (rule bit_word_eqI) (use h in \<open>auto simp add: bit_and_iff bit_mask_iff less_3_cases\<close>)
  then show "v AND 7 = 7" by (simp add: mask_eq_exp_minus_1)
qed

lemma and_7_eq_1: "(v AND 7 = 1) \<longleftrightarrow> bit v 0 \<and> \<not> bit v 1 \<and> \<not> bit (v::u8) 2"
proof
  assume h: "v AND 7 = 1"
  have "bit (v AND 7) 0 = bit (1::u8) 0" "bit (v AND 7) 1 = bit (1::u8) 1"
    "bit (v AND 7) 2 = bit (1::u8) 2"
    by (simp_all only: h)
  then show "bit v 0 \<and> \<not> bit v 1 \<and> \<not> bit v 2"
    by (simp add: bit_and_iff bit_numeral_simps bit_1_iff)
next
  assume h: "bit v 0 \<and> \<not> bit v 1 \<and> \<not> bit v 2"
  have "v AND mask 3 = 1"
    by (rule bit_word_eqI)
      (use h in \<open>auto simp add: bit_and_iff bit_mask_iff bit_1_iff less_3_cases\<close>)
  then show "v AND 7 = 1" by (simp add: mask_eq_exp_minus_1)
qed

lemma uint_and_7: "(uint (v::u8) AND 7 = uint (c::u8)) \<longleftrightarrow> (v AND 7 = c)"
proof -
  have "uint v AND 7 = uint (v AND 7)" by (simp add: uint_and)
  then show ?thesis by (simp only: word_uint_eq_iff)
qed

lemma connected_bits: "connected (uint (v::u8)) \<longleftrightarrow> bit v 0 \<and> bit v 1 \<and> bit v 2"
  using uint_and_7 [of v 7] by (simp add: connected_def CONNECT_eq and_7_eq_7)

lemma requested_bits: "requested (uint (v::u8)) \<longleftrightarrow> bit v 0 \<and> \<not> bit v 1 \<and> \<not> bit v 2"
  using uint_and_7 [of v 1] by (simp add: requested_def CONNECT_eq LOCK_REQ_eq and_7_eq_1)

lemma connected_requested_exclusive: "\<not> (connected x \<and> requested x)"
  by (auto simp add: connected_def requested_def CONNECT_eq LOCK_REQ_eq)

subsection \<open>Register access\<close>

lemma reg_read_eq:
  assumes "smbus_xfer K I2C_SMBUS_READ PCA9641_CONTR I2C_SMBUS_BYTE_DATA [] (world s) = ((ret, b), w')"
  shows "pca9641_reg_read K PCA9641_CONTR s =
           (if ret \<noteq> 0 then ret else uint b, s\<lparr>world := w', trace := trace s @ [ev_read]\<rparr>)"
  using assms by (simp add: pca9641_reg_read_def i2c_smbus_xfer_def ev_read_def PCA9641_CONTR_def)

lemma reg_write_multi_eq:
  assumes "smbus_xfer K I2C_SMBUS_WRITE 0x81 I2C_SMBUS_I2C_BLOCK_DATA [2, 0x25, 20] (world s) = ((ret, b), w')"
  shows "pca9641_reg_write_multi K 0x81 0x25 20 s =
           (ret, s\<lparr>world := w', trace := trace s @ [ev_request]\<rparr>)"
  using assms by (simp add: pca9641_reg_write_multi_def i2c_smbus_xfer_def ev_request_def)

lemma release_bus_eq:
  assumes "smbus_xfer K I2C_SMBUS_WRITE 0x01 I2C_SMBUS_BYTE_DATA [0] (world s) = ((ret, b), w')"
  shows "pca9641_release_bus K s = s\<lparr>world := w', trace := trace s @ [ev_release]\<rparr>"
  using assms
  by (simp add: pca9641_release_bus_def pca9641_reg_write_def i2c_smbus_xfer_def ev_release_def
      PCA9641_CONTR_def)

subsection \<open>Arbitration\<close>

text \<open>
  Claim C1. When the read of the control register succeeds with a value in which
  LOCK_REQ (bit 0), LOCK_GRANT (bit 1) and BUS_CONNECT (bit 2) are all set, the value is
  \<open>connected\<close> and arbitrate returns 1 (acquired); the read is its only transfer, so it
  writes no register, and it leaves the retry delay as it was.
\<close>

theorem arbitrate_connected:
  assumes "smbus_xfer K I2C_SMBUS_READ PCA9641_CONTR I2C_SMBUS_BYTE_DATA [] (world s) = ((0, v), w')"
    and "bit v 0" and "bit v 1" and "bit v 2"
  shows "connected (uint v)
         \<and> pca9641_arbitrate K s = (1, s\<lparr>world := w', trace := trace s @ [ev_read]\<rparr>)"
  using assms by (simp add: pca9641_arbitrate_def reg_read_eq connected_bits)

theorem arbitrate_connected_witness:
  "bit (7 :: u8) 0 \<and> bit (7 :: u8) 1 \<and> bit (7 :: u8) 2 \<and> connected (uint (7 :: u8)) \<and>
   pca9641_arbitrate (stub_kernel 100 (0, 7) 0 0) (boot 0) =
     (1, \<lparr>world = 0, select_timeout = 0, trace = [ev_read]\<rparr>)"
proof -
  have a: "smbus_xfer (stub_kernel 100 (0, 7) 0 0) I2C_SMBUS_READ PCA9641_CONTR
             I2C_SMBUS_BYTE_DATA [] (world (boot 0)) = ((0, 7), 0)"
    by (simp add: stub_kernel_def boot_def)
  have b: "bit (7 :: u8) 0" "bit (7 :: u8) 1" "bit (7 :: u8) 2"
    by (simp_all add: bit_numeral_simps)
  show ?thesis using arbitrate_connected [OF a b] b by (simp add: boot_def)
qed

text \<open>
  Claim C2. When the read of the control register succeeds with a value in which, of
  LOCK_REQ (bit 0), LOCK_GRANT (bit 1) and BUS_CONNECT (bit 2), exactly LOCK_REQ is set,
  the value is \<open>requested\<close> and arbitrate returns 0 (not acquired) and sets the retry
  delay to 1000 us; the read is its only transfer, so it writes no register.
\<close>

theorem arbitrate_requested:
  assumes "smbus_xfer K I2C_SMBUS_READ PCA9641_CONTR I2C_SMBUS_BYTE_DATA [] (world s) = ((0, v), w')"
    and "bit v 0" and "\<not> bit v 1" and "\<not> bit v 2"
  shows "requested (uint v)
         \<and> pca9641_arbitrate K s =
             (0, s\<lparr>world := w', select_timeout := 1000, trace := trace s @ [ev_read]\<rparr>)"
  using assms
  by (simp add: pca9641_arbitrate_def reg_read_eq SELECT_DELAY_LONG_def connected_bits
      requested_bits)

theorem arbitrate_requested_witness:
  "bit (1 :: u8) 0 \<and> \<not> bit (1 :: u8) 1 \<and> \<not> bit (1 :: u8) 2 \<and> requested (uint (1 :: u8)) \<and>
   pca9641_arbitrate (stub_kernel 100 (0, 1) 0 0) (boot 0) =
     (0, \<lparr>world = 0, select_timeout = 1000, trace = [ev_read]\<rparr>)"
proof -
  have a: "smbus_xfer (stub_kernel 100 (0, 1) 0 0) I2C_SMBUS_READ PCA9641_CONTR
             I2C_SMBUS_BYTE_DATA [] (world (boot 0)) = ((0, 1), 0)"
    by (simp add: stub_kernel_def boot_def)
  have b: "bit (1 :: u8) 0" "\<not> bit (1 :: u8) 1" "\<not> bit (1 :: u8) 2"
    by (simp_all add: bit_1_iff)
  show ?thesis using arbitrate_requested [OF a b] b by (simp add: boot_def)
qed

text \<open>
  Claim C3. When the read of the control register succeeds with a value that is neither
  \<open>connected\<close> nor \<open>requested\<close>, arbitrate issues, after the read, exactly one block
  write, to command 0x81 (CONTROL with the auto-increment bit), of the two bytes 0x25
  (LOCK_REQ, BUS_CONNECT and IDLE_TIMER_DIS) and 20 (the reserve time); it sets the retry
  delay to 0 and returns 0 (not acquired), whatever the write returns.
\<close>

theorem arbitrate_idle:
  assumes "smbus_xfer K I2C_SMBUS_READ PCA9641_CONTR I2C_SMBUS_BYTE_DATA [] (world s) = ((0, v), w')"
    and "\<not> connected (uint v)" and "\<not> requested (uint v)"
    and "smbus_xfer K I2C_SMBUS_WRITE 0x81 I2C_SMBUS_I2C_BLOCK_DATA [2, 0x25, 20] w' = ((wret, b), w'')"
  shows "pca9641_arbitrate K s =
           (0, s\<lparr>world := w'', select_timeout := 0, trace := trace s @ [ev_read, ev_request]\<rparr>)
         \<and> (0x25 :: u8) = word_of_int (PCA9641_CTL_LOCK_REQ OR PCA9641_CTL_BUS_CONNECT
                                         OR PCA9641_CTL_IDLE_TIMER_DIS)
         \<and> (0x81 :: u8) = (PCA9641_CONTR OR PCA9641_AUTO_INC) \<and> RESERVE_TIME = 20"
  using assms
  by (simp add: pca9641_arbitrate_def reg_read_eq reg_write_multi_eq request_bits_eq
      request_command_eq RESERVE_TIME_def SELECT_DELAY_SHORT_def)

theorem arbitrate_idle_witness:
  "\<not> connected (uint (0 :: u8)) \<and> \<not> requested (uint (0 :: u8)) \<and>
   pca9641_arbitrate (stub_kernel 100 (0, 0) 0 1) (boot 0) =
     (0, \<lparr>world = 2, select_timeout = 0, trace = [ev_read, ev_request]\<rparr>)"
proof -
  have a: "smbus_xfer (stub_kernel 100 (0, 0) 0 1) I2C_SMBUS_READ PCA9641_CONTR
             I2C_SMBUS_BYTE_DATA [] (world (boot 0)) = ((0, 0), 1)"
    by (simp add: stub_kernel_def boot_def)
  have b: "\<not> connected (uint (0 :: u8))" "\<not> requested (uint (0 :: u8))"
    by (simp_all add: connected_def requested_def CONNECT_eq LOCK_REQ_eq)
  have c: "smbus_xfer (stub_kernel 100 (0, 0) 0 1) I2C_SMBUS_WRITE 0x81
             I2C_SMBUS_I2C_BLOCK_DATA [2, 0x25, 20] 1 = ((0, 0), 2)"
    by (simp add: stub_kernel_def)
  show ?thesis using arbitrate_idle [OF a b c] b by (simp add: boot_def)
qed




subsection \<open>Transport errors\<close>

lemma arbitrate_read_error:
  assumes "smbus_xfer K I2C_SMBUS_READ PCA9641_CONTR I2C_SMBUS_BYTE_DATA [] (world s) = ((e, b), w')"
    and "e < 0"
  shows "pca9641_arbitrate K s = (e, s\<lparr>world := w', trace := trace s @ [ev_read]\<rparr>)"
  using assms by (simp add: pca9641_arbitrate_def reg_read_eq)

text \<open>
  Claim C4, as the code has it. A transport error of the register read is returned as it
  is by arbitrate, and select returns it at once, from any pass of its loop, with no
  delay and no further pass. A transport error of the block write is not propagated: the
  result of the write is dropped, and arbitrate returns 0 (not acquired) with the retry
  delay set to 0, whatever the write returned.
\<close>

theorem transport_errors:
  "(smbus_xfer K I2C_SMBUS_READ PCA9641_CONTR I2C_SMBUS_BYTE_DATA [] (world s) = ((e, b), w') \<and> e < 0
      \<longrightarrow> pca9641_arbitrate K s = (e, s\<lparr>world := w', trace := trace s @ [ev_read]\<rparr>)
        \<and> select_loop K t (Suc n) s = Some (e, s\<lparr>world := w', trace := trace s @ [ev_read]\<rparr>)
        \<and> pca9641_select_chan K (Suc n) chan s
            = Some (e, s\<lparr>world := w', trace := trace s @ [ev_read]\<rparr>))
   \<and> (smbus_xfer K I2C_SMBUS_READ PCA9641_CONTR I2C_SMBUS_BYTE_DATA [] (world s) = ((0, v), w')
        \<and> \<not> connected (uint v) \<and> \<not> requested (uint v)
        \<and> smbus_xfer K I2C_SMBUS_WRITE 0x81 I2C_SMBUS_I2C_BLOCK_DATA [2, 0x25, 20] w' = ((wret, b'), w'')
      \<longrightarrow> pca9641_arbitrate K s =
            (0, s\<lparr>world := w'', select_timeout := 0, trace := trace s @ [ev_read, ev_request]\<rparr>))"
proof (intro conjI impI)
  assume h: "smbus_xfer K I2C_SMBUS_READ PCA9641_CONTR I2C_SMBUS_BYTE_DATA [] (world s) = ((e, b), w') \<and> e < 0"
  then show a: "pca9641_arbitrate K s = (e, s\<lparr>world := w', trace := trace s @ [ev_read]\<rparr>)"
    by (simp add: arbitrate_read_error)
  from h have "e \<noteq> 0" by simp
  with h a show "select_loop K t (Suc n) s = Some (e, s\<lparr>world := w', trace := trace s @ [ev_read]\<rparr>)"
    by simp
  with h a \<open>e \<noteq> 0\<close> show "pca9641_select_chan K (Suc n) chan s
            = Some (e, s\<lparr>world := w', trace := trace s @ [ev_read]\<rparr>)"
    by (simp add: pca9641_select_chan_def)
next
  assume "smbus_xfer K I2C_SMBUS_READ PCA9641_CONTR I2C_SMBUS_BYTE_DATA [] (world s) = ((0, v), w')
        \<and> \<not> connected (uint v) \<and> \<not> requested (uint v)
        \<and> smbus_xfer K I2C_SMBUS_WRITE 0x81 I2C_SMBUS_I2C_BLOCK_DATA [2, 0x25, 20] w' = ((wret, b'), w'')"
  then show "pca9641_arbitrate K s =
            (0, s\<lparr>world := w'', select_timeout := 0, trace := trace s @ [ev_read, ev_request]\<rparr>)"
    by (simp add: pca9641_arbitrate_def reg_read_eq reg_write_multi_eq request_bits_eq
      request_command_eq RESERVE_TIME_def SELECT_DELAY_SHORT_def)
qed

theorem transport_errors_witness:
  "pca9641_arbitrate (stub_kernel 100 (- 5, 0) 0 1) (boot 0)
     = (- 5, \<lparr>world = 1, select_timeout = 0, trace = [ev_read]\<rparr>)
   \<and> pca9641_select_chan (stub_kernel 100 (- 5, 0) 0 1) (Suc 0) 0 (boot 0)
     = Some (- 5, \<lparr>world = 1, select_timeout = 0, trace = [ev_read]\<rparr>)
   \<and> pca9641_arbitrate (stub_kernel 100 (0, 0) (- 5) 1) (boot 0)
     = (0, \<lparr>world = 2, select_timeout = 0, trace = [ev_read, ev_request]\<rparr>)"
proof -
  have a: "smbus_xfer (stub_kernel 100 (- 5, 0) 0 1) I2C_SMBUS_READ PCA9641_CONTR
             I2C_SMBUS_BYTE_DATA [] (world (boot 0)) = ((- 5, 0), 1) \<and> (- 5 :: int) < 0"
    by (simp add: stub_kernel_def boot_def)
  have b: "smbus_xfer (stub_kernel 100 (0, 0) (- 5) 1) I2C_SMBUS_READ PCA9641_CONTR
             I2C_SMBUS_BYTE_DATA [] (world (boot 0)) = ((0, 0), 1)
           \<and> \<not> connected (uint (0 :: u8)) \<and> \<not> requested (uint (0 :: u8))
           \<and> smbus_xfer (stub_kernel 100 (0, 0) (- 5) 1) I2C_SMBUS_WRITE 0x81
             I2C_SMBUS_I2C_BLOCK_DATA [2, 0x25, 20] 1 = ((- 5, 0), 2)"
    by (simp add: stub_kernel_def boot_def connected_def requested_def CONNECT_eq LOCK_REQ_eq)
  have 1: "pca9641_arbitrate (stub_kernel 100 (- 5, 0) 0 1) (boot 0)
     = (- 5, \<lparr>world = 1, select_timeout = 0, trace = [ev_read]\<rparr>)
   \<and> pca9641_select_chan (stub_kernel 100 (- 5, 0) 0 1) (Suc 0) 0 (boot 0)
     = Some (- 5, \<lparr>world = 1, select_timeout = 0, trace = [ev_read]\<rparr>)"
    using transport_errors [where K = "stub_kernel 100 (- 5, 0) 0 1" and s = "boot 0"
        and e = "- 5" and b = 0 and w' = 1 and t = 0 and n = 0 and chan = 0,
        THEN conjunct1, THEN mp, OF a]
    by (simp add: boot_def del: select_loop.simps)
  have 2: "pca9641_arbitrate (stub_kernel 100 (0, 0) (- 5) 1) (boot 0)
     = (0, \<lparr>world = 2, select_timeout = 0, trace = [ev_read, ev_request]\<rparr>)"
    using transport_errors [where K = "stub_kernel 100 (0, 0) (- 5) 1" and s = "boot 0"
        and v = 0 and w' = 1 and wret = "- 5" and b' = 0 and w'' = 2,
        THEN conjunct2, THEN mp, OF b]
    by (simp add: boot_def)
  from 1 2 show ?thesis by (simp del: select_loop.simps)
qed

text \<open>
  The claim as stated fails for the write: on a transport whose block write fails with
  -5 (\<^verbatim>\<open>-EIO\<close>) after a successful read of 0x00, arbitrate returns 0, not -5.
\<close>

theorem write_error_counterexample:
  "fst (fst (smbus_xfer (stub_kernel 100 (0, 0) (- 5) 1) I2C_SMBUS_WRITE 0x81
               I2C_SMBUS_I2C_BLOCK_DATA [2, 0x25, 20] 1)) = - 5
   \<and> pca9641_arbitrate (stub_kernel 100 (0, 0) (- 5) 1) (boot 0)
       = (0, \<lparr>world = 2, select_timeout = 0, trace = [ev_read, ev_request]\<rparr>)
   \<and> fst (pca9641_arbitrate (stub_kernel 100 (0, 0) (- 5) 1) (boot 0)) \<noteq> - 5"
  by (simp add: stub_kernel_def boot_def pca9641_arbitrate_def pca9641_reg_read_def
      pca9641_reg_write_multi_def i2c_smbus_xfer_def ev_read_def ev_request_def
      connected_def requested_def CONNECT_def PCA9641_CTL_LOCK_REQ_def
      PCA9641_CTL_LOCK_GRANT_def PCA9641_CTL_BUS_CONNECT_def PCA9641_CTL_IDLE_TIMER_DIS_def
      BIT_def PCA9641_CONTR_def PCA9641_AUTO_INC_def RESERVE_TIME_def SELECT_DELAY_SHORT_def)

subsection \<open>Release\<close>

text \<open>
  Claim C9. Release returns 0 whatever the transfer that writes 0x00 to CONTROL
  returns: the result \<open>e\<close> of the transfer, an error or not, does not reach the caller.
\<close>

theorem release_discards_result:
  assumes "smbus_xfer K I2C_SMBUS_WRITE 0x01 I2C_SMBUS_BYTE_DATA [0] (world s) = ((e, b), w')"
  shows "pca9641_release_chan K chan s = (0, s\<lparr>world := w', trace := trace s @ [ev_release]\<rparr>)"
  using assms by (simp add: pca9641_release_chan_def release_bus_eq)

theorem release_discards_result_witness:
  "pca9641_release_chan (stub_kernel 100 (0, 7) (- 5) 1) 0 (boot 0)
     = (0, \<lparr>world = 1, select_timeout = 0, trace = [ev_release]\<rparr>)"
proof -
  have a: "smbus_xfer (stub_kernel 100 (0, 7) (- 5) 1) I2C_SMBUS_WRITE 0x01
             I2C_SMBUS_BYTE_DATA [0] (world (boot 0)) = ((- 5, 0), 1)"
    by (simp add: stub_kernel_def boot_def)
  show ?thesis using release_discards_result [OF a, of 0] by (simp add: boot_def)
qed

text \<open>
  Claim C10. On the same kernel and from the same state, select and release give the
  same result, the same final state and the same sequence of kernel calls for any two
  channel indices: the channel index is ignored.
\<close>

theorem chan_ignored:
  "pca9641_select_chan K fuel chan s = pca9641_select_chan K fuel chan' s
   \<and> pca9641_release_chan K chan s = pca9641_release_chan K chan' s"
  by (simp add: pca9641_select_chan_def pca9641_release_chan_def)

lemma release_chan_eq:
  "pca9641_release_chan K chan s
     = (0, s\<lparr>world := snd (smbus_xfer K I2C_SMBUS_WRITE 0x01 I2C_SMBUS_BYTE_DATA [0x00] (world s)),
             trace := trace s @ [ev_release]\<rparr>)"
  by (cases "smbus_xfer K I2C_SMBUS_WRITE 0x01 I2C_SMBUS_BYTE_DATA [0x00] (world s)")
    (auto simp add: pca9641_release_chan_def release_bus_eq)

lemma regfile_write_byte:
  "snd (smbus_xfer (regfile_kernel hz) I2C_SMBUS_WRITE c I2C_SMBUS_BYTE_DATA [v] w) = w(c := v)"
  by (simp add: regfile_kernel_def)

text \<open>
  Claim C6. From any state, release makes exactly one kernel call, the byte write of 0x00
  to CONTROL (command 0x01), changes nothing else and returns 0; a second release issues
  the same write again. On a register file, whatever it held before, CONTROL is 0x00
  after a release and the registers after two releases are those after one.
\<close>

theorem release_writes_zero:
  "pca9641_release_chan K chan s
     = (0, s\<lparr>world := snd (smbus_xfer K I2C_SMBUS_WRITE 0x01 I2C_SMBUS_BYTE_DATA [0x00] (world s)),
             trace := trace s @ [ev_release]\<rparr>)
   \<and> trace (snd (pca9641_release_chan K chan (snd (pca9641_release_chan K chan s))))
       = trace s @ [ev_release, ev_release]
   \<and> world (snd (pca9641_release_chan (regfile_kernel hz) chan r)) = (world r)(0x01 := 0x00)
   \<and> world (snd (pca9641_release_chan (regfile_kernel hz) chan
                    (snd (pca9641_release_chan (regfile_kernel hz) chan r))))
       = world (snd (pca9641_release_chan (regfile_kernel hz) chan r))"
  by (simp add: release_chan_eq regfile_write_byte)




subsection \<open>One poll, case by case\<close>

lemma arbitrate_cases:
  assumes "smbus_xfer K I2C_SMBUS_READ PCA9641_CONTR I2C_SMBUS_BYTE_DATA [] (world s) = ((ret, b), w')"
    and "reg = (if ret \<noteq> 0 then ret else uint b)"
    and "s1 = s\<lparr>world := w', trace := trace s @ [ev_read]\<rparr>"
  shows "pca9641_arbitrate K s =
     (if reg < 0 then (reg, s1)
      else if connected reg then (1, s1)
      else if requested reg then (0, s1\<lparr>select_timeout := 1000\<rparr>)
      else (0, s1\<lparr>world := snd (smbus_xfer K I2C_SMBUS_WRITE 0x81 I2C_SMBUS_I2C_BLOCK_DATA
                                    [2, 0x25, 20] w'),
                   select_timeout := 0, trace := trace s @ [ev_read, ev_request]\<rparr>))"
proof -
  obtain wr where wr: "smbus_xfer K I2C_SMBUS_WRITE 0x81 I2C_SMBUS_I2C_BLOCK_DATA [2, 0x25, 20] w' = wr"
    by simp
  obtain wret b' w'' where w: "wr = ((wret, b'), w'')"
    by (metis prod.exhaust)
  have "pca9641_reg_write_multi K 0x81 0x25 20 s1 = (wret, s1\<lparr>world := w'', trace := trace s1 @ [ev_request]\<rparr>)"
    using wr w assms(3) by (simp add: reg_write_multi_eq)
  then show ?thesis
    using assms wr w
    by (simp add: pca9641_arbitrate_def reg_read_eq request_bits_eq request_command_eq
        RESERVE_TIME_def SELECT_DELAY_SHORT_def SELECT_DELAY_LONG_def)
qed

lemma retry_delay_long:
  "select_timeout s = 1000 \<Longrightarrow>
   retry_delay K s = s\<lparr>world := msleep K 1 (world s), trace := trace s @ [Msleep 1]\<rparr>"
  by (simp add: retry_delay_def do_msleep_def SELECT_DELAY_SHORT_def)

lemma retry_delay_short:
  "select_timeout s = 0 \<Longrightarrow>
   retry_delay K s = s\<lparr>world := udelay K 0 (world s), trace := trace s @ [Udelay 0]\<rparr>"
  by (simp add: retry_delay_def do_udelay_def SELECT_DELAY_SHORT_def)

lemma arbitrate_ignores_timeout:
  "pca9641_arbitrate K (s\<lparr>select_timeout := x\<rparr>) =
     (case pca9641_arbitrate K s of
        (r, s1) \<Rightarrow> (r, if r = 0 then s1 else s1\<lparr>select_timeout := x\<rparr>))"
proof -
  obtain ret b w' where
    x: "smbus_xfer K I2C_SMBUS_READ PCA9641_CONTR I2C_SMBUS_BYTE_DATA [] (world s) = ((ret, b), w')"
    by (metis prod.exhaust)
  then have y: "smbus_xfer K I2C_SMBUS_READ PCA9641_CONTR I2C_SMBUS_BYTE_DATA []
                (world (s\<lparr>select_timeout := x\<rparr>)) = ((ret, b), w')"
    by simp
  show ?thesis
    by (simp add: arbitrate_cases [OF x refl refl] arbitrate_cases [OF y refl refl])
qed


lemma arbitrate_keeps_timeout:
  assumes "fst (pca9641_arbitrate K s) \<noteq> 0"
  shows "select_timeout (snd (pca9641_arbitrate K s)) = select_timeout s"
proof -
  obtain ret b w' where
    x: "smbus_xfer K I2C_SMBUS_READ PCA9641_CONTR I2C_SMBUS_BYTE_DATA [] (world s) = ((ret, b), w')"
    by (metis prod.exhaust)
  show ?thesis
    using assms by (simp add: arbitrate_cases [OF x refl refl] split: if_splits)
qed

lemma stub_arbitrate_connected:
  "pca9641_arbitrate (stub_kernel hz (0, 7) wr c) \<lparr>world = w, select_timeout = d, trace = tr\<rparr>
     = (1, \<lparr>world = w + c, select_timeout = d, trace = tr @ [ev_read]\<rparr>)"
proof -
  have "connected 7" by (simp add: connected_def CONNECT_eq)
  then show ?thesis
    by (subst arbitrate_cases [where ret = 0 and b = 7 and w' = "w + c", OF _ refl refl])
       (simp_all add: stub_kernel_def)
qed

subsection \<open>The retry delay across select calls\<close>

text \<open>
  Claim C7, as the code has it. A select call never reads or acts upon the retry delay a
  previous call left behind: every poll that reaches the delay has rewritten it first, so
  the result of select, its kernel calls and the world it leaves are the same for every
  initial value \<open>x\<close> of the retry delay. The field is not reset when select starts: when
  the first poll returns non-zero (acquired, or a transport error), select returns with
  the retry delay still holding its previous value.
\<close>

theorem select_ignores_old_delay:
  "map_option observable (pca9641_select_chan K fuel chan (s\<lparr>select_timeout := x\<rparr>))
     = map_option observable (pca9641_select_chan K fuel chan s)
   \<and> (fst (pca9641_arbitrate K s) \<noteq> 0 \<longrightarrow>
        map_option (\<lambda>r. select_timeout (snd r)) (pca9641_select_chan K (Suc n) chan s)
          = Some (select_timeout s))"
proof (intro conjI impI)
  show "map_option observable (pca9641_select_chan K fuel chan (s\<lparr>select_timeout := x\<rparr>))
     = map_option observable (pca9641_select_chan K fuel chan s)"
  proof (cases fuel)
    case 0
    then show ?thesis by (simp add: pca9641_select_chan_def)
  next
    case (Suc n)
    obtain r s1 where a: "pca9641_arbitrate K s = (r, s1)"
      by (metis prod.exhaust)
    show ?thesis
      using a Suc
      by (simp add: pca9641_select_chan_def arbitrate_ignores_timeout observable_def)
  qed
next
  assume h: "fst (pca9641_arbitrate K s) \<noteq> 0"
  obtain r s1 where a: "pca9641_arbitrate K s = (r, s1)"
    by (metis prod.exhaust)
  with h arbitrate_keeps_timeout [OF h] have "r \<noteq> 0" "select_timeout s1 = select_timeout s"
    by simp_all
  with a show "map_option (\<lambda>r. select_timeout (snd r)) (pca9641_select_chan K (Suc n) chan s)
          = Some (select_timeout s)"
    by (simp add: pca9641_select_chan_def)
qed

theorem select_ignores_old_delay_witness:
  "fst (pca9641_arbitrate (stub_kernel 100 (0, 7) 0 1)
          \<lparr>world = 0, select_timeout = 1000, trace = []\<rparr>) \<noteq> 0
   \<and> map_option (\<lambda>r. select_timeout (snd r))
        (pca9641_select_chan (stub_kernel 100 (0, 7) 0 1) (Suc 0) 0
           \<lparr>world = 0, select_timeout = 1000, trace = []\<rparr>) = Some 1000"
proof -
  have a: "fst (pca9641_arbitrate (stub_kernel 100 (0, 7) 0 1)
          \<lparr>world = 0, select_timeout = 1000, trace = []\<rparr>) \<noteq> 0"
    by (simp add: stub_arbitrate_connected)
  show ?thesis
    using a select_ignores_old_delay [where K = "stub_kernel 100 (0, 7) 0 1"
        and s = "\<lparr>world = 0, select_timeout = 1000, trace = []\<rparr>" and n = 0 and chan = 0,
        THEN conjunct2, THEN mp, OF a]
    by simp
qed

text \<open>
  The claim as stated fails: select does not reset the retry delay when it starts. On a
  transport whose first read is \<open>connected\<close>, a select call entered with the retry delay
  at 1000 returns success with the retry delay still 1000, and one entered with 0 leaves 0.
\<close>

theorem delay_not_reset_counterexample:
  "pca9641_select_chan (stub_kernel 100 (0, 7) 0 1) (Suc 0) 0
       \<lparr>world = 0, select_timeout = 1000, trace = []\<rparr>
     = Some (0, \<lparr>world = 1, select_timeout = 1000, trace = [ev_read]\<rparr>)
   \<and> pca9641_select_chan (stub_kernel 100 (0, 7) 0 1) (Suc 0) 0
       \<lparr>world = 0, select_timeout = 0, trace = []\<rparr>
     = Some (0, \<lparr>world = 1, select_timeout = 0, trace = [ev_read]\<rparr>)"
  by (simp add: pca9641_select_chan_def stub_arbitrate_connected)

subsection \<open>The passes of the select loop\<close>

lemma pass_events:
  "\<exists>p. pass_shape p \<and>
     (if fst (pca9641_arbitrate K s) \<noteq> 0 then trace (snd (pca9641_arbitrate K s))
      else trace (poll K s)) = trace s @ p"
proof -
  obtain ret b w' where
    x: "smbus_xfer K I2C_SMBUS_READ PCA9641_CONTR I2C_SMBUS_BYTE_DATA [] (world s) = ((ret, b), w')"
    by (metis prod.exhaust)
  show ?thesis
    by (simp add: poll_def arbitrate_cases [OF x refl refl] retry_delay_long retry_delay_short
        pass_shape_def)
qed

lemma select_loop_passes:
  "select_loop K t fuel s = Some (r, s') \<Longrightarrow>
   \<exists>ps. ps \<noteq> [] \<and> (\<forall>p \<in> set ps. pass_shape p) \<and> trace s' = trace s @ concat ps"
proof (induction fuel arbitrary: s)
  case 0
  then show ?case by simp
next
  case (Suc n)
  obtain ret s1 where a: "pca9641_arbitrate K s = (ret, s1)"
    by (metis prod.exhaust)
  have "\<exists>p. pass_shape p \<and> (if ret \<noteq> 0 then trace s1 else trace (poll K s)) = trace s @ p"
    using pass_events [of K s] unfolding a fst_conv snd_conv .
  then obtain p where p: "pass_shape p"
    "(if ret \<noteq> 0 then trace s1 else trace (poll K s)) = trace s @ p"
    by blast
  have s2: "retry_delay K s1 = poll K s"
    using a by (simp add: poll_def)
  show ?case
  proof (cases "ret \<noteq> 0")
    case True
    with Suc.prems a have "s' = s1" by auto
    with p True have "[p] \<noteq> [] \<and> (\<forall>q \<in> set [p]. pass_shape q) \<and> trace s' = trace s @ concat [p]"
      by simp
    then show ?thesis by blast
  next
    case False
    show ?thesis
    proof (cases "time_is_after_eq_jiffies K t (poll K s)")
      case True
      with Suc.prems a False s2 have "select_loop K t n (poll K s) = Some (r, s')"
        by simp
      from Suc.IH [OF this] obtain ps where
        ps: "\<forall>q \<in> set ps. pass_shape q" "trace s' = trace (poll K s) @ concat ps"
        by blast
      with p False have "p # ps \<noteq> [] \<and> (\<forall>q \<in> set (p # ps). pass_shape q)
          \<and> trace s' = trace s @ concat (p # ps)"
        by simp
      then show ?thesis by blast
    next
      case nt: False
      with Suc.prems a False s2 have "s' = poll K s" by auto
      with p False have "[p] \<noteq> [] \<and> (\<forall>q \<in> set [p]. pass_shape q) \<and> trace s' = trace s @ concat [p]"
        by simp
      then show ?thesis by blast
    qed
  qed
qed



subsection \<open>The deadline of select\<close>

lemma arbitrate_never_connected:
  assumes "never_connected K"
  shows "fst (pca9641_arbitrate K s) = 0"
proof -
  obtain ret b w' where
    x: "smbus_xfer K I2C_SMBUS_READ PCA9641_CONTR I2C_SMBUS_BYTE_DATA [] (world s) = ((ret, b), w')"
    by (metis prod.exhaust)
  with assms have "ret = 0 \<and> \<not> connected (uint b)"
    unfolding never_connected_def by (metis (mono_tags, lifting) case_prod_conv)
  then show ?thesis
    by (simp add: arbitrate_cases [OF x refl refl])
qed

lemma select_loop_step:
  assumes "never_connected K"
  shows "select_loop K t (Suc n) s =
           (if time_is_after_eq_jiffies K t (poll K s) then select_loop K t n (poll K s)
            else Some (- ETIMEDOUT, poll K s))"
proof -
  obtain r s1 where a: "pca9641_arbitrate K s = (r, s1)"
    by (metis prod.exhaust)
  with arbitrate_never_connected [OF assms, of s] have "r = 0" by simp
  with a show ?thesis by (simp add: poll_def)
qed

text \<open>
  The clock is what ends the loop: on a transport that never reports \<open>connected\<close>, a
  clock that never passes the deadline keeps select in its loop for any amount of fuel.
\<close>

lemma select_loop_needs_clock:
  assumes "never_connected K"
    and "\<forall>i. time_is_after_eq_jiffies K t ((poll K ^^ Suc i) s)"
  shows "select_loop K t fuel s = None"
  using assms(2)
proof (induction fuel arbitrary: s)
  case 0
  then show ?case by simp
next
  case (Suc n)
  from Suc.prems have first: "time_is_after_eq_jiffies K t (poll K s)"
    by (metis funpow_0 funpow.simps(2) o_apply)
  have "\<forall>i. time_is_after_eq_jiffies K t ((poll K ^^ Suc i) (poll K s))"
  proof
    fix i
    from Suc.prems have "time_is_after_eq_jiffies K t ((poll K ^^ Suc (Suc i)) s)" by blast
    then show "time_is_after_eq_jiffies K t ((poll K ^^ Suc i) (poll K s))"
      by (simp add: funpow_swap1)
  qed
  then have "select_loop K t n (poll K s) = None" by (rule Suc.IH)
  with first show ?case by (simp only: select_loop_step [OF assms(1)] if_True)
qed


lemma sint_diff_of_nat:
  assumes "int a - int b < 2 ^ 63" and "- (2 ^ 63) \<le> int a - int b"
  shows "sint (of_nat a - of_nat b :: ulong) = int a - int b"
proof -
  have "(of_nat a - of_nat b :: ulong) = word_of_int (int a - int b)"
    by simp
  moreover have "signed_take_bit 63 (int a - int b) = int a - int b"
    using assms by (intro signed_take_bit_int_eq_self) simp_all
  ultimately show ?thesis by (simp only: signed_of_int) simp
qed

lemma poll_world:
  assumes "never_connected K"
  shows "world (poll K s) = msleep K 1 (snd (smbus_xfer K I2C_SMBUS_READ PCA9641_CONTR
                                    I2C_SMBUS_BYTE_DATA [] (world s)))
       \<or> world (poll K s) = udelay K 0 (snd (smbus_xfer K I2C_SMBUS_WRITE 0x81
             I2C_SMBUS_I2C_BLOCK_DATA [2, 0x25, 20]
             (snd (smbus_xfer K I2C_SMBUS_READ PCA9641_CONTR I2C_SMBUS_BYTE_DATA [] (world s)))))"
proof -
  obtain ret b w' where
    x: "smbus_xfer K I2C_SMBUS_READ PCA9641_CONTR I2C_SMBUS_BYTE_DATA [] (world s) = ((ret, b), w')"
    by (metis prod.exhaust)
  with assms have "ret = 0 \<and> \<not> connected (uint b)"
    unfolding never_connected_def by (metis (mono_tags, lifting) case_prod_conv)
  then show ?thesis
    by (simp add: poll_def arbitrate_cases [OF x refl refl] x retry_delay_long retry_delay_short)
qed

lemma poll_duration:
  assumes "never_connected K" and "ticking K clk per hi"
  shows "clk (world s) < clk (world (poll K s)) \<and> clk (world (poll K s)) \<le> clk (world s) + 3 * hi"
proof -
  define w1 where "w1 = snd (smbus_xfer K I2C_SMBUS_READ PCA9641_CONTR I2C_SMBUS_BYTE_DATA [] (world s))"
  define w2 where "w2 = snd (smbus_xfer K I2C_SMBUS_WRITE 0x81 I2C_SMBUS_I2C_BLOCK_DATA [2, 0x25, 20] w1)"
  from assms(2) have r: "clk (world s) < clk w1" "clk w1 \<le> clk (world s) + hi"
    unfolding ticking_def w1_def by blast+
  from assms(2) have w: "clk w1 < clk w2" "clk w2 \<le> clk w1 + hi"
    unfolding ticking_def w2_def by blast+
  from assms(2) have u: "clk w2 \<le> clk (udelay K 0 w2)" "clk (udelay K 0 w2) \<le> clk w2 + hi"
    unfolding ticking_def by blast+
  from assms(2) have m: "clk w1 \<le> clk (msleep K 1 w1)" "clk (msleep K 1 w1) \<le> clk w1 + hi"
    unfolding ticking_def by blast+
  from poll_world [OF assms(1), of s]
  have "world (poll K s) = msleep K 1 w1 \<or> world (poll K s) = udelay K 0 w2"
    unfolding w1_def w2_def .
  with r w u m show ?thesis by auto
qed

lemma deadline_test:
  assumes "ticking K clk per hi"
    and "j0 * per \<le> clk (world s)"
    and "clk (world s) < (j0 + a + 1) * per + 3 * hi"
    and "a + 3 * hi + 2 < 2 ^ 63"
  shows "time_is_after_eq_jiffies K (of_nat (j0 + a)) s \<longleftrightarrow> clk (world s) < (j0 + a + 1) * per"
proof -
  from assms(1) have per: "0 < per" and j: "jiffies K (world s) = of_nat (clk (world s) div per)"
    unfolding ticking_def by blast+
  define j where "j = clk (world s) div per"
  have lo: "j0 \<le> j"
    unfolding j_def using assms(2) per by (simp add: less_eq_div_iff_mult_less_eq)
  have "clk (world s) < (j0 + a + 1 + 3 * hi) * per"
  proof -
    have h: "hi \<le> hi * per" using per by simp
    have "(j0 + a + 1 + 3 * hi) * per = (j0 + a + 1) * per + 3 * (hi * per)"
      by (simp add: algebra_simps)
    with assms(3) h show ?thesis by linarith
  qed
  then have up: "j < j0 + a + 1 + 3 * hi"
    unfolding j_def using per by (simp add: div_less_iff_less_mult)
  have "sint (of_nat (j0 + a) - of_nat j :: ulong) = int (j0 + a) - int j"
    using lo up assms(4) by (intro sint_diff_of_nat) auto
  then have "time_is_after_eq_jiffies K (of_nat (j0 + a)) s \<longleftrightarrow> 0 \<le> int (j0 + a) - int j"
    by (simp only: time_is_after_eq_jiffies_def j j_def)
  also have "\<dots> \<longleftrightarrow> j \<le> j0 + a" by linarith
  also have "\<dots> \<longleftrightarrow> j < j0 + a + 1" by auto
  also have "\<dots> \<longleftrightarrow> clk (world s) < (j0 + a + 1) * per"
    unfolding j_def using per by (simp add: div_less_iff_less_mult)
  finally show ?thesis .
qed

lemma select_loop_expires:
  assumes "never_connected K" and "ticking K clk per hi"
    and "a + 3 * hi + 2 < 2 ^ 63"
  shows "j0 * per \<le> clk (world s) \<Longrightarrow> clk (world s) < (j0 + a + 1) * per \<Longrightarrow>
         (j0 + a + 1) * per - clk (world s) \<le> n \<Longrightarrow>
         \<exists>s'. select_loop K (of_nat (j0 + a)) n s = Some (- ETIMEDOUT, s')
              \<and> (j0 + a + 1) * per \<le> clk (world s')
              \<and> clk (world s') < (j0 + a + 1) * per + 3 * hi"
proof (induction n arbitrary: s)
  case 0
  then show ?case by simp
next
  case (Suc n)
  let ?s2 = "poll K s"
  from poll_duration [OF assms(1,2), of s]
  have d: "clk (world s) < clk (world ?s2)" "clk (world ?s2) \<le> clk (world s) + 3 * hi"
    by simp_all
  have lo: "j0 * per \<le> clk (world ?s2)"
    using Suc.prems(1) d(1) by simp
  have up: "clk (world ?s2) < (j0 + a + 1) * per + 3 * hi"
    using Suc.prems(2) d(2) by simp
  note test = deadline_test [OF assms(2) lo up assms(3)]
  show ?case
  proof (cases "clk (world ?s2) < (j0 + a + 1) * per")
    case True
    have "(j0 + a + 1) * per - clk (world ?s2) \<le> n"
      using Suc.prems(3) d(1) True by simp
    from Suc.IH [OF lo True this] True test show ?thesis
      by (simp only: select_loop_step [OF assms(1)] if_True)
  next
    case False
    with test have "select_loop K (of_nat (j0 + a)) (Suc n) s = Some (- ETIMEDOUT, ?s2)"
      by (simp only: select_loop_step [OF assms(1)] if_False)
    with False up show ?thesis by simp
  qed
qed

lemma select_loop_more_fuel:
  "select_loop K t n s = Some r \<Longrightarrow> select_loop K t (n + d) s = Some r"
proof (induction n arbitrary: s)
  case 0
  then show ?case by simp
next
  case (Suc n)
  obtain ret s1 where a: "pca9641_arbitrate K s = (ret, s1)"
    by (metis prod.exhaust)
  show ?case
  proof (cases "ret = 0 \<and> time_is_after_eq_jiffies K t (retry_delay K s1)")
    case True
    with Suc.prems a have "select_loop K t n (retry_delay K s1) = Some r"
      by simp
    then have "select_loop K t (n + d) (retry_delay K s1) = Some r"
      by (rule Suc.IH)
    with True a show ?thesis by simp
  next
    case False
    with Suc.prems a show ?thesis by (auto simp add: Let_def)
  qed
qed

text \<open>
  Claim C5, as the code has it. Let the transport answer every read of CONTROL with
  success and a value that is not \<open>connected\<close>, and let time advance as \<open>ticking\<close>
  says. Then select returns, with \<^verbatim>\<open>-ETIMEDOUT\<close>, whatever delays it takes: any
  fuel above \<open>(HZ div 4 + 1) * per\<close> gives the same result. It returns after the
  deadline, not within it: the clock is then more than \<^verbatim>\<open>HZ / 4\<close> jiffies
  (250 ms) past the start of select, and less than \<open>HZ div 4 + 1\<close> jiffies and the
  longest pass (three kernel calls, \<open>3 * hi\<close> ticks) past it.
\<close>

theorem select_times_out:
  assumes "never_connected K"
    and "ticking K clk per hi"
    and "HZ K div 4 + 3 * hi + 2 < 2 ^ 63"
  shows "\<exists>s'. (\<forall>fuel>(HZ K div 4 + 1) * per.
                  pca9641_select_chan K fuel chan s = Some (- ETIMEDOUT, s'))
           \<and> clk (world s) div per + HZ K div 4 < clk (world s') div per
           \<and> clk (world s') < clk (world s) + (HZ K div 4 + 1) * per + 3 * hi"
proof -
  from assms(2) have per: "0 < per" and j: "jiffies K (world s) = of_nat (clk (world s) div per)"
    unfolding ticking_def by blast+
  define j0 where "j0 = clk (world s) div per"
  define a where "a = HZ K div 4"
  define n where "n = Suc ((a + 1) * per)"
  have t: "jiffies K (world s) + of_nat (ARB_TIMEOUT K) = of_nat (j0 + a)"
    by (simp add: j j0_def a_def ARB_TIMEOUT_def)
  have lo: "j0 * per \<le> clk (world s)"
    unfolding j0_def by simp
  have "clk (world s) < (j0 + 1) * per"
    unfolding j0_def using per
    by (metis Suc_eq_plus1 dividend_less_div_times mult.commute mult_Suc add.commute)
  also have "\<dots> \<le> (j0 + a + 1) * per" by simp
  finally have up: "clk (world s) < (j0 + a + 1) * per" .
  have "(j0 + a + 1) * per - clk (world s) \<le> (a + 1) * per"
    using lo by (simp add: algebra_simps)
  then have n: "(j0 + a + 1) * per - clk (world s) \<le> n"
    unfolding n_def by simp
  from select_loop_expires [OF assms(1,2) assms(3) [folded a_def] lo up n]
  obtain s' where s': "select_loop K (of_nat (j0 + a)) n s = Some (- ETIMEDOUT, s')"
    "(j0 + a + 1) * per \<le> clk (world s')" "clk (world s') < (j0 + a + 1) * per + 3 * hi"
    by blast
  have run: "pca9641_select_chan K fuel chan s = Some (- ETIMEDOUT, s')"
    if "(HZ K div 4 + 1) * per < fuel" for fuel
  proof -
    from that have "n \<le> fuel" unfolding n_def a_def by simp
    then obtain d where "fuel = n + d" using le_Suc_ex by blast
    with select_loop_more_fuel [OF s'(1), of d] show ?thesis
      unfolding pca9641_select_chan_def t by simp
  qed
  from s'(2) per have "j0 + a + 1 \<le> clk (world s') div per"
    by (simp add: less_eq_div_iff_mult_less_eq)
  then have 1: "clk (world s) div per + HZ K div 4 < clk (world s') div per"
    unfolding j0_def a_def by simp
  have "(j0 + a + 1) * per \<le> clk (world s) + (a + 1) * per"
    using lo by (simp add: algebra_simps)
  with s'(3) have 2: "clk (world s') < clk (world s) + (HZ K div 4 + 1) * per + 3 * hi"
    unfolding a_def by simp
  from run 1 2 show ?thesis by blast
qed

subsection \<open>Runs on the stub kernel\<close>

lemma stub_poll_requested:
  "poll (stub_kernel hz (0, 1) wr c) \<lparr>world = w, select_timeout = d, trace = tr\<rparr>
     = \<lparr>world = w + c + 1, select_timeout = 1000, trace = tr @ [ev_read, Msleep 1]\<rparr>"
proof -
  have r: "requested 1" "\<not> connected 1"
    by (simp_all add: requested_def connected_def CONNECT_eq LOCK_REQ_eq)
  have "pca9641_arbitrate (stub_kernel hz (0, 1) wr c) \<lparr>world = w, select_timeout = d, trace = tr\<rparr>
          = (0, \<lparr>world = w + c, select_timeout = 1000, trace = tr @ [ev_read]\<rparr>)"
    using r
    by (subst arbitrate_cases [where ret = 0 and b = 1 and w' = "w + c", OF _ refl refl])
       (simp_all add: stub_kernel_def)
  then show ?thesis
    by (simp add: poll_def retry_delay_long) (simp add: stub_kernel_def)
qed

lemma stub_poll_idle:
  "poll (stub_kernel hz (0, 0) wr c) \<lparr>world = w, select_timeout = d, trace = tr\<rparr>
     = \<lparr>world = w + c + c, select_timeout = 0, trace = tr @ [ev_read, ev_request, Udelay 0]\<rparr>"
proof -
  have r: "\<not> requested 0" "\<not> connected 0"
    by (simp_all add: requested_def connected_def CONNECT_eq LOCK_REQ_eq)
  have "pca9641_arbitrate (stub_kernel hz (0, 0) wr c) \<lparr>world = w, select_timeout = d, trace = tr\<rparr>
          = (0, \<lparr>world = w + c + c, select_timeout = 0, trace = tr @ [ev_read, ev_request]\<rparr>)"
    using r
    by (subst arbitrate_cases [where ret = 0 and b = 0 and w' = "w + c", OF _ refl refl])
       (simp_all add: stub_kernel_def)
  then show ?thesis
    by (simp add: poll_def retry_delay_short) (simp add: stub_kernel_def)
qed

lemma stub_never_connected:
  "\<not> connected (uint b) \<Longrightarrow> never_connected (stub_kernel hz (0, b) wr c)"
  by (simp add: never_connected_def stub_kernel_def)

lemma stub_clock:
  "time_is_after_eq_jiffies (stub_kernel hz rd wr c) t \<lparr>world = w, select_timeout = d, trace = tr\<rparr>
     \<longleftrightarrow> 0 \<le> sint (t - w)"
  by (simp add: time_is_after_eq_jiffies_def stub_kernel_def)

lemma stub_idle_run:
  "pca9641_select_chan (stub_kernel 100 (0, 0) 0 10) (Suc (Suc 0)) 0 (boot 0)
     = Some (- 110, \<lparr>world = 40, select_timeout = 0,
                     trace = [ev_read, ev_request, Udelay 0, ev_read, ev_request, Udelay 0]\<rparr>)"
proof -
  have n: "never_connected (stub_kernel 100 (0, 0) 0 10)"
    by (rule stub_never_connected) (simp add: connected_def CONNECT_eq)
  have t: "jiffies (stub_kernel 100 (0, 0) 0 10) (world (boot 0))
             + of_nat (ARB_TIMEOUT (stub_kernel 100 (0, 0) 0 10)) = 25"
    by (simp add: stub_kernel_def boot_def ARB_TIMEOUT_def)
  show ?thesis
    unfolding pca9641_select_chan_def t
    by (simp add: select_loop_step [OF n] boot_def stub_poll_idle stub_clock ETIMEDOUT_def
        del: select_loop.simps)
qed

lemma tick_never_connected:
  "\<not> connected (uint b) \<Longrightarrow> never_connected (tick_kernel hz per (0, b) cost)"
  by (simp add: never_connected_def tick_kernel_def)

lemma tick_ticking:
  "0 < per \<Longrightarrow> 0 < cost \<Longrightarrow> cost \<le> hi \<Longrightarrow> per \<le> hi \<Longrightarrow>
   ticking (tick_kernel hz per rd cost) (\<lambda>w. w) per hi"
  by (simp add: ticking_def tick_kernel_def)

theorem select_times_out_witness:
  "never_connected (tick_kernel 100 2 (0, 1) 20)
   \<and> ticking (tick_kernel 100 2 (0, 1) 20) (\<lambda>w. w) 2 20
   \<and> (\<exists>s'. (\<forall>fuel>52. pca9641_select_chan (tick_kernel 100 2 (0, 1) 20) fuel 0 (boot 0)
                          = Some (- 110, s'))
          \<and> 25 < world s' div 2 \<and> world s' < 112)"
proof -
  have n: "never_connected (tick_kernel 100 2 (0, 1) 20)"
    by (rule tick_never_connected) (simp add: connected_def CONNECT_eq)
  have t: "ticking (tick_kernel 100 2 (0, 1) 20) (\<lambda>w. w) 2 20"
    by (rule tick_ticking) simp_all
  have b: "HZ (tick_kernel 100 2 (0, 1) 20) div 4 + 3 * 20 + 2 < 2 ^ 63"
    by (simp add: tick_kernel_def)
  have h: "HZ (tick_kernel 100 2 (0, 1) 20) = 100"
    by (simp add: tick_kernel_def)
  from select_times_out [OF n t b, of 0 "boot 0"] n t show ?thesis
    by (simp add: h boot_def ETIMEDOUT_def)
qed

lemma tick_poll_requested:
  "poll (tick_kernel hz per (0, 1) c) \<lparr>world = w, select_timeout = d, trace = tr\<rparr>
     = \<lparr>world = w + c + per, select_timeout = 1000, trace = tr @ [ev_read, Msleep 1]\<rparr>"
proof -
  have r: "requested 1" "\<not> connected 1"
    by (simp_all add: requested_def connected_def CONNECT_eq LOCK_REQ_eq)
  have "pca9641_arbitrate (tick_kernel hz per (0, 1) c) \<lparr>world = w, select_timeout = d, trace = tr\<rparr>
          = (0, \<lparr>world = w + c, select_timeout = 1000, trace = tr @ [ev_read]\<rparr>)"
    using r
    by (subst arbitrate_cases [where ret = 0 and b = 1 and w' = "w + c", OF _ refl refl])
       (simp_all add: tick_kernel_def)
  then show ?thesis
    by (simp add: poll_def retry_delay_long) (simp add: tick_kernel_def)
qed

lemma tick_requested_run:
  "pca9641_select_chan (tick_kernel 100 2 (0, 1) 20) (Suc (Suc (Suc n))) 0 (boot 0)
     = Some (- 110, \<lparr>world = 66, select_timeout = 1000,
                     trace = [ev_read, Msleep 1, ev_read, Msleep 1, ev_read, Msleep 1]\<rparr>)"
proof -
  have n: "never_connected (tick_kernel 100 2 (0, 1) 20)"
    by (rule tick_never_connected) (simp add: connected_def CONNECT_eq)
  have t: "jiffies (tick_kernel 100 2 (0, 1) 20) (world (boot 0))
             + of_nat (ARB_TIMEOUT (tick_kernel 100 2 (0, 1) 20)) = 25"
    by (simp add: tick_kernel_def boot_def ARB_TIMEOUT_def)
  have c: "time_is_after_eq_jiffies (tick_kernel 100 2 (0, 1) 20) x
             \<lparr>world = w, select_timeout = d, trace = tr\<rparr> \<longleftrightarrow> 0 \<le> sint (x - of_nat (w div 2))"
    for x w d tr
    by (simp add: time_is_after_eq_jiffies_def tick_kernel_def)
  show ?thesis
    unfolding pca9641_select_chan_def t
    by (simp add: select_loop_step [OF n] boot_def tick_poll_requested c ETIMEDOUT_def
        del: select_loop.simps)
qed

lemma stub_poll_idle_world:
  "world (poll (stub_kernel hz (0, 0) wr c) s) = world s + c + c"
  by (cases s) (simp add: stub_poll_idle)

lemma stalled_clock_never_returns:
  "pca9641_select_chan (stub_kernel 100 (0, 0) 0 0) fuel chan (boot 0) = None"
proof -
  have n: "never_connected (stub_kernel 100 (0, 0) 0 0)"
    by (rule stub_never_connected) (simp add: connected_def CONNECT_eq)
  have w: "world ((poll (stub_kernel 100 (0, 0) 0 0) ^^ i) (boot 0)) = 0" for i
    by (induction i) (simp_all add: boot_def stub_poll_idle_world)
  have "time_is_after_eq_jiffies (stub_kernel 100 (0, 0) 0 0) 25
          ((poll (stub_kernel 100 (0, 0) 0 0) ^^ Suc i) (boot 0))" for i
    unfolding time_is_after_eq_jiffies_def w by (simp add: stub_kernel_def)
  then have "select_loop (stub_kernel 100 (0, 0) 0 0) 25 fuel (boot 0) = None"
    by (intro select_loop_needs_clock [OF n]) blast
  then show ?thesis
    by (simp add: pca9641_select_chan_def stub_kernel_def boot_def ARB_TIMEOUT_def)
qed

text \<open>
  The claim as stated fails twice over. On a transport whose transfers take 1000 jiffies,
  select returns \<^verbatim>\<open>-ETIMEDOUT\<close> at jiffy 1001, long after the deadline of 25.
  On a kernel whose clock stands still, with reads answered 0x00, select has not returned
  after 1000 passes, nor after any other number (\<open>stalled_clock_never_returns\<close>).
\<close>

theorem late_or_never_counterexample:
  "pca9641_select_chan (stub_kernel 100 (0, 1) 0 1000) (Suc 0) 0 (boot 0)
     = Some (- 110, \<lparr>world = 1001, select_timeout = 1000, trace = [ev_read, Msleep 1]\<rparr>)
   \<and> pca9641_select_chan (stub_kernel 100 (0, 0) 0 0) 1000 0 (boot 0) = None"
proof -
  have n: "never_connected (stub_kernel 100 (0, 1) 0 1000)"
    by (rule stub_never_connected) (simp add: connected_def CONNECT_eq)
  have t: "jiffies (stub_kernel 100 (0, 1) 0 1000) (world (boot 0))
             + of_nat (ARB_TIMEOUT (stub_kernel 100 (0, 1) 0 1000)) = 25"
    by (simp add: stub_kernel_def boot_def ARB_TIMEOUT_def)
  have "pca9641_select_chan (stub_kernel 100 (0, 1) 0 1000) (Suc 0) 0 (boot 0)
     = Some (- 110, \<lparr>world = 1001, select_timeout = 1000, trace = [ev_read, Msleep 1]\<rparr>)"
    unfolding pca9641_select_chan_def t
    by (simp add: select_loop_step [OF n] boot_def stub_poll_requested stub_clock ETIMEDOUT_def
        del: select_loop.simps)
  then show ?thesis by (simp add: stalled_clock_never_returns)
qed

subsection \<open>Reads, writes and delays of the loop\<close>

text \<open>
  Claim C8, as the code has it. Every pass through the loop of select makes exactly one
  register read, first; then at most one register write, the block write of the request;
  then at most one delay, last. The write is not confined to the first pass: a pass
  writes whenever the value it read is neither \<open>connected\<close> nor \<open>requested\<close>.
\<close>

theorem select_passes:
  "(\<exists>p. pass_shape p \<and>
       (if fst (pca9641_arbitrate K s) \<noteq> 0 then trace (snd (pca9641_arbitrate K s))
        else trace (poll K s)) = trace s @ p)
   \<and> (pca9641_select_chan K fuel chan s = Some (r, s') \<longrightarrow>
        (\<exists>ps. ps \<noteq> [] \<and> (\<forall>p \<in> set ps. pass_shape p) \<and> trace s' = trace s @ concat ps))
   \<and> (smbus_xfer K I2C_SMBUS_READ PCA9641_CONTR I2C_SMBUS_BYTE_DATA [] (world s) = ((0, v), w')
        \<and> \<not> connected (uint v) \<and> \<not> requested (uint v) \<longrightarrow>
        trace (poll K s) = trace s @ [ev_read, ev_request, Udelay 0])"
proof (intro conjI impI)
  show "\<exists>p. pass_shape p \<and>
       (if fst (pca9641_arbitrate K s) \<noteq> 0 then trace (snd (pca9641_arbitrate K s))
        else trace (poll K s)) = trace s @ p"
    by (rule pass_events)
next
  assume "pca9641_select_chan K fuel chan s = Some (r, s')"
  then show "\<exists>ps. ps \<noteq> [] \<and> (\<forall>p \<in> set ps. pass_shape p) \<and> trace s' = trace s @ concat ps"
    unfolding pca9641_select_chan_def by (rule select_loop_passes)
next
  assume h: "smbus_xfer K I2C_SMBUS_READ PCA9641_CONTR I2C_SMBUS_BYTE_DATA [] (world s) = ((0, v), w')
        \<and> \<not> connected (uint v) \<and> \<not> requested (uint v)"
  then have x: "smbus_xfer K I2C_SMBUS_READ PCA9641_CONTR I2C_SMBUS_BYTE_DATA [] (world s) = ((0, v), w')"
    by simp
  from h show "trace (poll K s) = trace s @ [ev_read, ev_request, Udelay 0]"
    by (simp add: poll_def arbitrate_cases [OF x refl refl] retry_delay_short)
qed

theorem select_passes_witness:
  "trace (poll (stub_kernel 100 (0, 0) 0 10) (boot 0)) = [ev_read, ev_request, Udelay 0]
   \<and> (\<exists>ps. ps \<noteq> [] \<and> (\<forall>p \<in> set ps. pass_shape p)
          \<and> [ev_read, ev_request, Udelay 0, ev_read, ev_request, Udelay 0] = concat ps)"
proof -
  have a: "smbus_xfer (stub_kernel 100 (0, 0) 0 10) I2C_SMBUS_READ PCA9641_CONTR
             I2C_SMBUS_BYTE_DATA [] (world (boot 0)) = ((0, 0), 10)
           \<and> \<not> connected (uint (0 :: u8)) \<and> \<not> requested (uint (0 :: u8))"
    by (simp add: stub_kernel_def boot_def connected_def requested_def CONNECT_eq LOCK_REQ_eq)
  have 1: "trace (poll (stub_kernel 100 (0, 0) 0 10) (boot 0)) = [ev_read, ev_request, Udelay 0]"
    using select_passes [where K = "stub_kernel 100 (0, 0) 0 10" and s = "boot 0" and v = 0
        and w' = 10, THEN conjunct2, THEN conjunct2, THEN mp, OF a]
    by (simp add: boot_def)
  have 2: "\<exists>ps. ps \<noteq> [] \<and> (\<forall>p \<in> set ps. pass_shape p)
          \<and> [ev_read, ev_request, Udelay 0, ev_read, ev_request, Udelay 0] = concat ps"
    using select_passes [where K = "stub_kernel 100 (0, 0) 0 10" and s = "boot 0"
        and fuel = "Suc (Suc 0)" and chan = 0,
        THEN conjunct2, THEN conjunct1, THEN mp, OF stub_idle_run]
    by (simp add: boot_def)
  from 1 2 show ?thesis by blast
qed

text \<open>
  The claim as stated fails: on a transport that keeps answering 0x00, with \<open>HZ = 100\<close>
  and ten jiffies for each transfer, select makes two passes and the second writes too.
\<close>

theorem later_write_counterexample:
  "map_option (\<lambda>r. trace (snd r))
     (pca9641_select_chan (stub_kernel 100 (0, 0) 0 10) (Suc (Suc 0)) 0 (boot 0))
     = Some [ev_read, ev_request, Udelay 0, ev_read, ev_request, Udelay 0]"
  by (simp add: stub_idle_run)

end
